theory Spec2Isabelle
  imports Main
begin

section \<open>The connection registry of \<open>backend/server.js\<close>\<close>

text \<open>
  The server keeps two module-level variables (lines 19--20):
  \<^verbatim>\<open>
  const activeConnections = new Map(); // Map<sessionId, Set<response objects>>
  let totalConnections = 0;
  \<close>
  A JavaScript \<open>Map\<close> and a \<open>Set\<close> both iterate in insertion order and hold a key
  (an element) at most once. They are modelled as lists in insertion order: an
  association list for the \<open>Map\<close>, a list of elements for the \<open>Set\<close>. Each method
  the source calls is one function below; a method that mutates the container returns
  the new container.
\<close>

subsection \<open>JavaScript \<open>Set\<close>\<close>

definition set_has :: "'a list \<Rightarrow> 'a \<Rightarrow> bool" where
  "set_has s x = (x \<in> set s)"

text \<open>\<open>Set.prototype.add\<close>: a value already present is not added again; a new one goes last.\<close>

definition set_add :: "'a list \<Rightarrow> 'a \<Rightarrow> 'a list" where
  "set_add s x = (if set_has s x then s else s @ [x])"

text \<open>\<open>Set.prototype.delete\<close>: removes the value when present, otherwise changes nothing.\<close>

definition set_delete :: "'a list \<Rightarrow> 'a \<Rightarrow> 'a list" where
  "set_delete s x = removeAll x s"

definition set_size :: "'a list \<Rightarrow> nat" where
  "set_size s = length s"

subsection \<open>JavaScript \<open>Map\<close>\<close>

text \<open>\<open>Map.prototype.get\<close>: \<open>undefined\<close> for a missing key is \<open>None\<close>.\<close>

fun map_get :: "('k \<times> 'v) list \<Rightarrow> 'k \<Rightarrow> 'v option" where
  "map_get [] k = None"
| "map_get ((k', v) # m) k = (if k' = k then Some v else map_get m k)"

definition map_has :: "('k \<times> 'v) list \<Rightarrow> 'k \<Rightarrow> bool" where
  "map_has m k = (map_get m k \<noteq> None)"

text \<open>
  \<open>Map.prototype.set\<close>: an existing key keeps its position and takes the new value; a
  new key is appended.
\<close>

fun map_set :: "('k \<times> 'v) list \<Rightarrow> 'k \<Rightarrow> 'v \<Rightarrow> ('k \<times> 'v) list" where
  "map_set [] k v = [(k, v)]"
| "map_set ((k', v') # m) k v =
     (if k' = k then (k, v) # m else (k', v') # map_set m k v)"

text \<open>\<open>Map.prototype.delete\<close>.\<close>

fun map_delete :: "('k \<times> 'v) list \<Rightarrow> 'k \<Rightarrow> ('k \<times> 'v) list" where
  "map_delete [] k = []"
| "map_delete ((k', v') # m) k =
     (if k' = k then map_delete m k else (k', v') # map_delete m k)"

text \<open>The \<open>size\<close> property of a \<open>Map\<close>.\<close>

definition map_size :: "('k \<times> 'v) list \<Rightarrow> nat" where
  "map_size m = length m"

subsection \<open>Registry state\<close>

text \<open>
  A session id is the string of the \<open>visitorId\<close> cookie. A response object is known to
  the registry by its identity only (the \<open>Set\<close> compares objects by reference), so a
  response is modelled by a number naming the object.

  \<open>totalConnections\<close> is a JavaScript number that only ever takes the steps \<open>++\<close> and
  \<open>--\<close> from \<open>0\<close>; it is an exact integer below \<open>2^53\<close>, modelled as \<open>int\<close>.
\<close>

type_synonym sessionId = string
type_synonym response = nat

record registry =
  activeConnections :: "(sessionId \<times> response list) list"
  totalConnections :: int

definition empty_registry :: registry where
  "empty_registry = \<lparr>activeConnections = [], totalConnections = 0\<rparr>"

datatype js_error = TypeError

subsection \<open>Attach: lines 66--70 of the \<open>/events\<close> handler\<close>

text \<open>
  \<^verbatim>\<open>
  if (!activeConnections.has(sessionId)) {
    activeConnections.set(sessionId, new Set());
  }
  activeConnections.get(sessionId).add(res);
  totalConnections++;
  \<close>
  \<open>add\<close> mutates the \<open>Set\<close> object that the \<open>Map\<close> holds: in the model the changed set
  is stored back under its key. Calling \<open>add\<close> on \<open>undefined\<close> would raise a
  \<open>TypeError\<close>; that branch is kept, and \<open>attach_returns\<close> below shows it is never taken.
\<close>

definition attach :: "sessionId \<Rightarrow> response \<Rightarrow> registry \<Rightarrow> js_error + registry" where
  "attach sessionId res s =
     (let ac = (if \<not> map_has (activeConnections s) sessionId
                then map_set (activeConnections s) sessionId []
                else activeConnections s)
      in case map_get ac sessionId of
           None \<Rightarrow> Inl TypeError
         | Some conns \<Rightarrow>
             Inr \<lparr>activeConnections = map_set ac sessionId (set_add conns res),
                  totalConnections = totalConnections s + 1\<rparr>)"

subsection \<open>Detach: lines 88--97 of the \<open>close\<close> handler\<close>

text \<open>
  \<^verbatim>\<open>
  const sessionConnections = activeConnections.get(sessionId);
  if (sessionConnections) {
    sessionConnections.delete(res);
    totalConnections--;
    if (sessionConnections.size === 0) {
      activeConnections.delete(sessionId);
    }
  }
  \<close>
  A \<open>Set\<close> object is truthy even when empty, so the guard tests only that the key has
  an entry. The decrement does not look at what \<open>delete\<close> returned.
\<close>

definition detach :: "sessionId \<Rightarrow> response \<Rightarrow> registry \<Rightarrow> registry" where
  "detach sessionId res s =
     (case map_get (activeConnections s) sessionId of
        None \<Rightarrow> s
      | Some sessionConnections \<Rightarrow>
          (let conns = set_delete sessionConnections res;
               ac = map_set (activeConnections s) sessionId conns
           in \<lparr>activeConnections =
                  (if set_size conns = 0 then map_delete ac sessionId else ac),
                totalConnections = totalConnections s - 1\<rparr>))"

subsection \<open>Sequences of operations\<close>

datatype op = Attach sessionId response | Detach sessionId response

fun apply_op :: "op \<Rightarrow> registry \<Rightarrow> js_error + registry" where
  "apply_op (Attach v h) s = attach v h s"
| "apply_op (Detach v h) s = Inr (detach v h s)"

fun run :: "op list \<Rightarrow> registry \<Rightarrow> js_error + registry" where
  "run [] s = Inr s"
| "run (x # xs) s = (case apply_op x s of Inl e \<Rightarrow> Inl e | Inr s' \<Rightarrow> run xs s')"

text \<open>Attaching the handles of a list, one after the other, under one session id.\<close>

definition attach_all :: "sessionId \<Rightarrow> response list \<Rightarrow> registry \<Rightarrow> js_error + registry" where
  "attach_all v hs s = run (map (Attach v) hs) s"

subsection \<open>What a snapshot reads\<close>

text \<open>\<open>activeConnections.size\<close>, as lines 40 and 113 read it.\<close>

definition uniqueVisitors :: "registry \<Rightarrow> int" where
  "uniqueVisitors s = int (map_size (activeConnections s))"

definition snapshot :: "registry \<Rightarrow> int \<times> int" where
  "snapshot s = (totalConnections s, uniqueVisitors s)"

text \<open>The handle set of a session id; the empty set when the id has no entry.\<close>

definition handles_of :: "registry \<Rightarrow> sessionId \<Rightarrow> response list" where
  "handles_of s v = (case map_get (activeConnections s) v of None \<Rightarrow> [] | Some hs \<Rightarrow> hs)"

text \<open>The sum of the handle-set sizes over all entries, and the number of non-empty entries.\<close>

definition sum_sizes :: "registry \<Rightarrow> int" where
  "sum_sizes s = int (sum_list (map (\<lambda>(v, hs). set_size hs) (activeConnections s)))"

definition nonempty_entries :: "registry \<Rightarrow> int" where
  "nonempty_entries s = int (length (filter (\<lambda>(v, hs). set_size hs \<noteq> 0) (activeConnections s)))"





text \<open>
  The representation invariant of the two containers (keys and elements occur once) and
  the pruning invariant (no entry holds an empty set).
\<close>

definition rep_ok :: "registry \<Rightarrow> bool" where
  "rep_ok s = (distinct (map fst (activeConnections s)) \<and>
               list_all (\<lambda>(v, hs). distinct hs) (activeConnections s))"

definition no_empty_sets :: "registry \<Rightarrow> bool" where
  "no_empty_sets s = list_all (\<lambda>(v, hs). hs \<noteq> []) (activeConnections s)"

section \<open>Frames and documents the server sends\<close>

subsection \<open>Decimal digits and integers as \<open>JSON.stringify\<close> prints them\<close>

definition is_digit :: "char \<Rightarrow> bool" where
  "is_digit c = (c \<in> set ''0123456789'')"

definition digit_char :: "nat \<Rightarrow> char" where
  "digit_char d = ''0123456789'' ! (d mod 10)"

fun show_nat :: "nat \<Rightarrow> string" where
  "show_nat n = (if n < 10 then [digit_char n] else show_nat (n div 10) @ [digit_char (n mod 10)])"

declare show_nat.simps [simp del]

text \<open>
  The decimal form of an integer-valued number: digits, after a minus sign when negative.
  (A JavaScript number prints this way up to \<open>10^21\<close>; the counters stay far below.)
\<close>

definition show_int :: "int \<Rightarrow> string" where
  "show_int i = (if i < 0 then CHR ''-'' # show_nat (nat (- i)) else show_nat (nat i))"

text \<open>An integer literal of JSON, without leading zeros: \<open>-?(0|[1-9][0-9]*)\<close>.\<close>

definition is_int_literal :: "string \<Rightarrow> bool" where
  "is_int_literal s =
     (let ds = (if s \<noteq> [] \<and> hd s = CHR ''-'' then tl s else s)
      in ds \<noteq> [] \<and> list_all is_digit ds \<and> (hd ds = CHR ''0'' \<longrightarrow> length ds = 1))"

text \<open>
  Reading a decimal integer back, as \<open>JSON.parse\<close> in the client (\<open>frontend/app/page.tsx\<close>)
  does with the two counts.
\<close>

definition digit_value :: "char \<Rightarrow> nat" where
  "digit_value c = length (takeWhile (\<lambda>d. d \<noteq> c) ''0123456789'')"

definition read_nat :: "string \<Rightarrow> nat" where
  "read_nat s = foldl (\<lambda>a c. 10 * a + digit_value c) 0 s"

definition read_int :: "string \<Rightarrow> int" where
  "read_int s =
     (case s of
        [] \<Rightarrow> 0
      | c # cs \<Rightarrow> if c = CHR ''-'' then - int (read_nat cs) else int (read_nat s))"

subsection \<open>\<open>JSON.stringify\<close> on the objects the server builds\<close>

text \<open>
  Both object literals of the source are flat: their fields hold numbers and strings.
  A string is printed between double quotes with the escapes of ECMAScript's
  \<open>QuoteJSONString\<close>.
\<close>

datatype json_value = JNumber int | JString string

type_synonym json_object = "(string \<times> json_value) list"

definition dquote :: char where
  "dquote = CHR 0x22"

definition backslash :: char where
  "backslash = CHR 0x5C"

definition LF :: char where
  "LF = CHR 0x0A"

definition hex_char :: "nat \<Rightarrow> char" where
  "hex_char d = ''0123456789abcdef'' ! (d mod 16)"

definition escape_char :: "char \<Rightarrow> string" where
  "escape_char c =
     (if c = dquote then [backslash, dquote]
      else if c = backslash then [backslash, backslash]
      else if c = CHR 0x08 then [backslash, CHR ''b'']
      else if c = CHR 0x09 then [backslash, CHR ''t'']
      else if c = CHR 0x0A then [backslash, CHR ''n'']
      else if c = CHR 0x0C then [backslash, CHR ''f'']
      else if c = CHR 0x0D then [backslash, CHR ''r'']
      else if (of_char c :: nat) < 32
        then [backslash, CHR ''u'', CHR ''0'', CHR ''0'',
              hex_char (of_char c div 16), hex_char (of_char c mod 16)]
      else [c])"

definition quote_json_string :: "string \<Rightarrow> string" where
  "quote_json_string s = dquote # concat (map escape_char s) @ [dquote]"

fun stringify_value :: "json_value \<Rightarrow> string" where
  "stringify_value (JNumber n) = show_int n"
| "stringify_value (JString s) = quote_json_string s"

definition stringify_member :: "string \<times> json_value \<Rightarrow> string" where
  "stringify_member kv = quote_json_string (fst kv) @ '':'' @ stringify_value (snd kv)"

fun join_commas :: "string list \<Rightarrow> string" where
  "join_commas [] = []"
| "join_commas [x] = x"
| "join_commas (x # y # ys) = x @ '','' @ join_commas (y # ys)"

definition JSON_stringify :: "json_object \<Rightarrow> string" where
  "JSON_stringify obj = ''{'' @ join_commas (map stringify_member obj) @ ''}''"

text \<open>Reading a field of an object, as \<open>data.totalConnections\<close> does on the client.\<close>

fun json_field :: "json_object \<Rightarrow> string \<Rightarrow> json_value option" where
  "json_field [] k = None"
| "json_field ((k', v) # obj) k = (if k' = k then Some v else json_field obj k)"

subsection \<open>\<open>new Date().toISOString()\<close>\<close>

text \<open>
  \<open>new Date()\<close> reads the clock. The instant read is given to the model by its UTC
  calendar fields; \<open>toISOString\<close> prints them as \<open>YYYY-MM-DDTHH:mm:ss.sssZ\<close>, each
  field padded with zeros to its width, and a year beyond \<open>9999\<close> in the expanded form
  \<open>+YYYYYY\<close>. The fields of an instant lie in their calendar ranges (a month below 13,
  an hour below 24, ...), so each fits its width.
\<close>

record date =
  year :: nat
  month :: nat
  day :: nat
  hours :: nat
  minutes :: nat
  seconds :: nat
  milliseconds :: nat

fun pad_digits :: "nat \<Rightarrow> nat \<Rightarrow> string" where
  "pad_digits 0 n = []"
| "pad_digits (Suc w) n = pad_digits w (n div 10) @ [digit_char (n mod 10)]"

definition toISOString :: "date \<Rightarrow> string" where
  "toISOString d =
     (if year d \<le> 9999 then pad_digits 4 (year d) else CHR ''+'' # pad_digits 6 (year d))
     @ ''-'' @ pad_digits 2 (month d) @ ''-'' @ pad_digits 2 (day d)
     @ ''T'' @ pad_digits 2 (hours d) @ '':'' @ pad_digits 2 (minutes d)
     @ '':'' @ pad_digits 2 (seconds d) @ ''.'' @ pad_digits 3 (milliseconds d) @ ''Z''"

text \<open>The shape \<open>dddd-dd-ddTdd:dd:dd.dddZ\<close> of an ISO-8601 date-time in UTC.\<close>

definition iso8601_utc :: "string \<Rightarrow> bool" where
  "iso8601_utc s =
     (length s = 24 \<and>
      list_all (\<lambda>i. is_digit (s ! i)) [0, 1, 2, 3, 5, 6, 8, 9, 11, 12, 14, 15, 17, 18, 20, 21, 22] \<and>
      s ! 4 = CHR ''-'' \<and> s ! 7 = CHR ''-'' \<and> s ! 10 = CHR ''T'' \<and> s ! 13 = CHR '':'' \<and>
      s ! 16 = CHR '':'' \<and> s ! 19 = CHR ''.'' \<and> s ! 23 = CHR ''Z'')"

subsection \<open>The two payloads\<close>

text \<open>
  Lines 40--45 of \<open>broadcastCount\<close>:
  \<^verbatim>\<open>
  const uniqueVisitors = activeConnections.size;
  const data = JSON.stringify({
    totalConnections, uniqueVisitors, timestamp: new Date().toISOString() });
  \<close>
\<close>

definition broadcast_object :: "date \<Rightarrow> registry \<Rightarrow> json_object" where
  "broadcast_object now s =
     [(''totalConnections'', JNumber (totalConnections s)),
      (''uniqueVisitors'', JNumber (int (map_size (activeConnections s)))),
      (''timestamp'', JString (toISOString now))]"

definition count_frame :: "date \<Rightarrow> registry \<Rightarrow> string" where
  "count_frame now s = ''data: '' @ JSON_stringify (broadcast_object now s) @ [LF, LF]"

text \<open>
  Lines 110--115 of the \<open>/health\<close> handler:
  \<^verbatim>\<open>
  res.json({ status: "ok", totalConnections,
             uniqueVisitors: activeConnections.size,
             timestamp: new Date().toISOString() });
  \<close>
\<close>

definition health_object :: "date \<Rightarrow> registry \<Rightarrow> json_object" where
  "health_object now s =
     [(''status'', JString ''ok''),
      (''totalConnections'', JNumber (totalConnections s)),
      (''uniqueVisitors'', JNumber (int (map_size (activeConnections s)))),
      (''timestamp'', JString (toISOString now))]"

definition health :: "date \<Rightarrow> registry \<Rightarrow> string" where
  "health now s = JSON_stringify (health_object now s)"

text \<open>Lines 80--82: the keep-alive comment and the delay of its timer.\<close>

definition heartbeat_frame :: string where
  "heartbeat_frame = '': heartbeat'' @ [LF, LF]"

definition heartbeatIntervalMs :: nat where
  "heartbeatIntervalMs = 15000"

text \<open>
  In an event stream the field name of a line is what stands before its first colon. A
  line that starts with the colon has no field name: it is a comment, which a client
  skips.
\<close>

definition sse_field_name :: "string \<Rightarrow> string" where
  "sse_field_name line = takeWhile (\<lambda>c. c \<noteq> CHR '':'') line"

section \<open>The handlers\<close>

text \<open>
  Beside the registry the handlers touch two things: the heartbeat timers
  (\<open>setInterval\<close>, \<open>clearInterval\<close>) and the responses they write to. The model keeps
  the live timers as a list, each timer with the response its callback writes to and its
  delay in milliseconds, and a log of every \<open>res.write\<close> call in order. A write to a
  client that has gone does not reach it; \<open>res.write\<close> does not throw then: the failure
  shows in its return value and in its callback, and the source looks at neither. The
  clients that have gone are a parameter of every handler; the log records for each write
  whether it was delivered.
\<close>

record wire_entry =
  target :: response
  chunk :: string
  delivered :: bool

record server =
  reg :: registry
  intervals :: "(response \<times> nat) list"
  wire :: "wire_entry list"

definition res_write :: "response list \<Rightarrow> response \<Rightarrow> string \<Rightarrow> server \<Rightarrow> server" where
  "res_write gone res c s =
     s\<lparr>wire := wire s @ [\<lparr>target = res, chunk = c, delivered = (res \<notin> set gone)\<rparr>]\<rparr>"

text \<open>
  Lines 39--52:
  \<^verbatim>\<open>
  function broadcastCount() {
    const uniqueVisitors = activeConnections.size;
    const data = JSON.stringify({ ... });
    activeConnections.forEach((responses) => {
      responses.forEach((res) => {
        res.write(`data: ${data}\n\n`);
      });
    });
  }
  \<close>
  The two nested \<open>forEach\<close> loops are two nested folds, in insertion order.
\<close>

definition broadcastCount :: "response list \<Rightarrow> date \<Rightarrow> server \<Rightarrow> server" where
  "broadcastCount gone now s =
     (let frame = count_frame now (reg s)
      in fold (\<lambda>(sessionId, responses) s1.
                 fold (\<lambda>res s2. res_write gone res frame s2) responses s1)
              (activeConnections (reg s)) s)"

text \<open>
  The \<open>/events\<close> handler, lines 55--106, after \<open>getSessionId\<close> has produced the session
  id: attach, broadcast, start the heartbeat timer. (The headers and the console log
  do not touch the state.)
\<close>

definition events :: "response list \<Rightarrow> date \<Rightarrow> sessionId \<Rightarrow> response \<Rightarrow> server \<Rightarrow> js_error + server" where
  "events gone now sessionId res s =
     (case attach sessionId res (reg s) of
        Inl e \<Rightarrow> Inl e
      | Inr r \<Rightarrow>
          (let s1 = broadcastCount gone now (s\<lparr>reg := r\<rparr>)
           in Inr (s1\<lparr>intervals := intervals s1 @ [(res, heartbeatIntervalMs)]\<rparr>)))"

text \<open>The timer callback of lines 80--82; it runs only while its timer is live.\<close>

definition heartbeat :: "response list \<Rightarrow> response \<Rightarrow> server \<Rightarrow> server" where
  "heartbeat gone res s =
     (if res \<in> set (map fst (intervals s)) then res_write gone res heartbeat_frame s else s)"

text \<open>
  The \<open>close\<close> handler, lines 85--105: clear the timer, detach, broadcast to the
  remaining clients.
\<close>

definition on_close :: "response list \<Rightarrow> date \<Rightarrow> sessionId \<Rightarrow> response \<Rightarrow> server \<Rightarrow> server" where
  "on_close gone now sessionId res s =
     (let s1 = s\<lparr>intervals := remove1 (res, heartbeatIntervalMs) (intervals s)\<rparr>;
          s2 = s1\<lparr>reg := detach sessionId res (reg s1)\<rparr>
      in broadcastCount gone now s2)"

text \<open>
  \<open>setInterval(f, delay)\<close> called at time \<open>t0\<close> (in milliseconds) calls \<open>f\<close> at
  \<open>t0 + delay\<close>, \<open>t0 + 2 * delay\<close>, ... until the timer is cleared. These are the
  instants up to \<open>t\<close> of a timer that is still live at \<open>t\<close>, on an ideal clock (the
  event loop may run a callback late).
\<close>

definition setInterval_fires :: "nat \<Rightarrow> nat \<Rightarrow> nat \<Rightarrow> nat list" where
  "setInterval_fires delay t0 t = map (\<lambda>k. t0 + k * delay) [1..<Suc ((t - t0) div delay)]"

text \<open>The handles a broadcast iterates over, in its order.\<close>

definition all_handles :: "registry \<Rightarrow> response list" where
  "all_handles s = concat (map snd (activeConnections s))"

section \<open>Scenarios\<close>

text \<open>Scenario A of the specification: two tabs of visitor \<open>v1\<close>, one of \<open>v2\<close>, all closed again.\<close>

definition scenario_A :: "op list" where
  "scenario_A = [Attach ''v1'' 1, Attach ''v1'' 2, Attach ''v2'' 3,
                 Detach ''v1'' 1, Detach ''v1'' 2, Detach ''v2'' 3]"

text \<open>A clock reading, and a server with one connection of each of two visitors.\<close>

definition example_date :: date where
  "example_date = \<lparr>year = 2026, month = 11, day = 3, hours = 6, minutes = 45,
                    seconds = 0, milliseconds = 7\<rparr>"

definition example_server :: server where
  "example_server =
     \<lparr>reg = \<lparr>activeConnections = [(''v1'', [1]), (''v2'', [2])], totalConnections = 2\<rparr>,
      intervals = [(1, 15000), (2, 15000)], wire = []\<rparr>"

section \<open>Properties of the containers\<close>

lemma map_get_map_set: "map_get (map_set m k v) k' = (if k' = k then Some v else map_get m k')"
  by (induction m) auto

lemma map_get_map_delete: "map_get (map_delete m k) k' = (if k' = k then None else map_get m k')"
  by (induction m) auto

lemma map_get_None_iff: "map_get m k = None \<longleftrightarrow> k \<notin> fst ` set m"
  by (induction m) (auto split: if_splits)

lemma map_get_Some_mem: "map_get m k = Some v \<Longrightarrow> (k, v) \<in> set m"
  by (induction m) (auto split: if_splits)

lemma map_set_twice: "map_set (map_set m k v) k w = map_set m k w"
  by (induction m) auto

lemma map_set_same: "map_get m k = Some v \<Longrightarrow> map_set m k v = m"
  by (induction m) (auto split: if_splits)

lemma length_map_set:
  "length (map_set m k v) = (if map_get m k = None then Suc (length m) else length m)"
  by (induction m) (auto split: if_splits)

lemma keys_map_set:
  "map fst (map_set m k v) = (if map_get m k = None then map fst m @ [k] else map fst m)"
  by (induction m) (auto split: if_splits)

lemma keys_map_delete: "map fst (map_delete m k) = removeAll k (map fst m)"
  by (induction m) auto

lemma map_delete_absent: "map_get m k = None \<Longrightarrow> map_delete m k = m"
  by (induction m) (auto split: if_splits)

lemma map_delete_map_set: "map_delete (map_set m k v) k = map_delete m k"
  by (induction m) auto

lemma sizes_map_set:
  "sum_list (map (\<lambda>(v, hs). set_size hs) (map_set m k w)) + (case map_get m k of None \<Rightarrow> 0 | Some old \<Rightarrow> set_size old)
     = sum_list (map (\<lambda>(v, hs). set_size hs) m) + set_size w"
  by (induction m) auto


lemma attach_returns:
  "attach v h s = Inr \<lparr>activeConnections = map_set (activeConnections s) v (set_add (handles_of s v) h),
                       totalConnections = totalConnections s + 1\<rparr>"
  by (cases "map_get (activeConnections s) v")
     (simp_all add: attach_def map_has_def handles_of_def map_get_map_set map_set_twice Let_def)

lemma detach_absent: "map_get (activeConnections s) v = None \<Longrightarrow> detach v h s = s"
  by (simp add: detach_def)

lemma detach_present:
  "map_get (activeConnections s) v = Some hs \<Longrightarrow>
   detach v h s =
     \<lparr>activeConnections =
        (if removeAll h hs = [] then map_delete (activeConnections s) v
         else map_set (activeConnections s) v (removeAll h hs)),
      totalConnections = totalConnections s - 1\<rparr>"
  by (simp add: detach_def Let_def set_delete_def set_size_def map_delete_map_set)


lemma list_all_map_set: "list_all P m \<Longrightarrow> P (k, v) \<Longrightarrow> list_all P (map_set m k v)"
  by (induction m) auto

lemma list_all_map_delete: "list_all P m \<Longrightarrow> list_all P (map_delete m k)"
  by (induction m) auto

lemma distinct_keys_map_set: "distinct (map fst m) \<Longrightarrow> distinct (map fst (map_set m k v))"
  by (simp add: keys_map_set map_get_None_iff)

lemma distinct_keys_map_delete: "distinct (map fst m) \<Longrightarrow> distinct (map fst (map_delete m k))"
  by (simp add: keys_map_delete distinct_removeAll)

lemma distinct_set_add: "distinct s \<Longrightarrow> distinct (set_add s x)"
  by (simp add: set_add_def set_has_def)

lemma handles_of_distinct: "rep_ok s \<Longrightarrow> distinct (handles_of s v)"
proof (cases "map_get (activeConnections s) v")
  case None
  then show ?thesis by (simp add: handles_of_def)
next
  case (Some hs)
  assume "rep_ok s"
  then have "list_all (\<lambda>(v, hs). distinct hs) (activeConnections s)" by (simp add: rep_ok_def)
  with map_get_Some_mem [OF Some] have "distinct hs" by (auto simp: list_all_iff)
  with Some show ?thesis by (simp add: handles_of_def)
qed

lemma rep_ok_attach: "rep_ok s \<Longrightarrow> attach v h s = Inr s' \<Longrightarrow> rep_ok s'"
  using handles_of_distinct [of s v]
  by (auto simp: attach_returns rep_ok_def distinct_keys_map_set list_all_map_set distinct_set_add)

lemma rep_ok_detach: "rep_ok s \<Longrightarrow> rep_ok (detach v h s)"
proof (cases "map_get (activeConnections s) v")
  case None
  then show "rep_ok s \<Longrightarrow> rep_ok (detach v h s)" by (simp add: detach_absent)
next
  case (Some hs)
  assume ok: "rep_ok s"
  from handles_of_distinct [OF ok, of v] Some have "distinct (removeAll h hs)"
    by (simp add: handles_of_def distinct_removeAll)
  with ok show "rep_ok (detach v h s)"
    by (simp add: detach_present [OF Some] rep_ok_def distinct_keys_map_set
        distinct_keys_map_delete list_all_map_set list_all_map_delete)
qed

lemma set_add_nonempty: "set_add s x \<noteq> []"
  by (auto simp: set_add_def set_has_def)

lemma no_empty_attach: "no_empty_sets s \<Longrightarrow> attach v h s = Inr s' \<Longrightarrow> no_empty_sets s'"
  by (auto simp: attach_returns no_empty_sets_def list_all_map_set set_add_nonempty)

lemma no_empty_detach: "no_empty_sets s \<Longrightarrow> no_empty_sets (detach v h s)"
  by (cases "map_get (activeConnections s) v")
     (simp_all add: detach_absent detach_present no_empty_sets_def list_all_map_set
        list_all_map_delete)

lemma run_returns: "\<exists>s'. run xs s = Inr s'"
proof (induction xs arbitrary: s)
  case Nil
  then show ?case by simp
next
  case (Cons x xs)
  then show ?case by (cases x) (simp_all add: attach_returns)
qed

lemma apply_op_rep_ok: "rep_ok s \<Longrightarrow> apply_op x s = Inr s' \<Longrightarrow> rep_ok s'"
  by (cases x) (auto simp: rep_ok_attach rep_ok_detach)

lemma apply_op_no_empty: "no_empty_sets s \<Longrightarrow> apply_op x s = Inr s' \<Longrightarrow> no_empty_sets s'"
  by (cases x) (auto simp: no_empty_attach no_empty_detach)

lemma run_rep_ok: "rep_ok s \<Longrightarrow> run xs s = Inr s' \<Longrightarrow> rep_ok s'"
  by (induction xs arbitrary: s) (auto split: sum.splits dest: apply_op_rep_ok)

lemma run_no_empty: "no_empty_sets s \<Longrightarrow> run xs s = Inr s' \<Longrightarrow> no_empty_sets s'"
  by (induction xs arbitrary: s) (auto split: sum.splits dest: apply_op_no_empty)

lemma rep_ok_empty: "rep_ok empty_registry"
  by (simp add: rep_ok_def empty_registry_def)

lemma no_empty_empty: "no_empty_sets empty_registry"
  by (simp add: no_empty_sets_def empty_registry_def)


lemma sum_sizes_attach:
  assumes "attach v h s = Inr s'"
  shows "sum_sizes s' = sum_sizes s + (if set_has (handles_of s v) h then 0 else 1)"
proof -
  let ?f = "\<lambda>(v, hs). set_size hs"
  let ?w = "set_add (handles_of s v) h"
  from assms have ac: "activeConnections s' = map_set (activeConnections s) v ?w"
    by (auto simp: attach_returns)
  have old: "(case map_get (activeConnections s) v of None \<Rightarrow> 0 | Some old \<Rightarrow> set_size old)
               = set_size (handles_of s v)"
    by (simp add: handles_of_def set_size_def split: option.splits)
  have "set_size ?w = set_size (handles_of s v) + (if set_has (handles_of s v) h then 0 else 1)"
    by (simp add: set_add_def set_size_def)
  with sizes_map_set [of "activeConnections s" v ?w] old
  have "sum_list (map ?f (activeConnections s')) =
          sum_list (map ?f (activeConnections s)) + (if set_has (handles_of s v) h then 0 else 1)"
    by (simp add: ac)
  then show ?thesis by (simp add: sum_sizes_def)
qed






lemma run_reachable:
  "\<exists>s. run xs empty_registry = Inr s \<and> rep_ok s \<and> no_empty_sets s"
proof -
  from run_returns obtain s where s: "run xs empty_registry = Inr s" by blast
  from run_rep_ok [OF rep_ok_empty s] run_no_empty [OF no_empty_empty s] s
  show ?thesis by blast
qed

lemma length_map_delete:
  "distinct (map fst m) \<Longrightarrow> map_get m k = Some x \<Longrightarrow> Suc (length (map_delete m k)) = length m"
proof (induction m)
  case Nil
  then show ?case by simp
next
  case (Cons p m)
  obtain k' v' where p: "p = (k', v')" by (cases p)
  show ?case
  proof (cases "k' = k")
    case True
    with Cons.prems p have "map_get m k = None" by (simp add: map_get_None_iff)
    with True p show ?thesis by (simp add: map_delete_absent)
  next
    case False
    with Cons p show ?thesis by simp
  qed
qed

lemma present_iff_nonempty:
  "no_empty_sets s \<Longrightarrow> map_has (activeConnections s) v \<longleftrightarrow> handles_of s v \<noteq> []"
proof (cases "map_get (activeConnections s) v")
  case None
  then show ?thesis by (simp add: map_has_def handles_of_def)
next
  case (Some hs)
  assume "no_empty_sets s"
  with map_get_Some_mem [OF Some] have "hs \<noteq> []"
    by (auto simp: no_empty_sets_def list_all_iff)
  with Some show ?thesis by (simp add: map_has_def handles_of_def)
qed

lemma detach_last:
  assumes "rep_ok s" and "handles_of s v = [h]"
  shows "\<not> map_has (activeConnections (detach v h s)) v"
    and "uniqueVisitors (detach v h s) = uniqueVisitors s - 1"
proof -
  from assms(2) have got: "map_get (activeConnections s) v = Some [h]"
    by (simp add: handles_of_def split: option.splits)
  from detach_present [OF got, of h]
  have ac: "activeConnections (detach v h s) = map_delete (activeConnections s) v" by simp
  show "\<not> map_has (activeConnections (detach v h s)) v"
    by (simp add: ac map_has_def map_get_map_delete)
  from assms(1) have "distinct (map fst (activeConnections s))" by (simp add: rep_ok_def)
  from length_map_delete [OF this got]
  show "uniqueVisitors (detach v h s) = uniqueVisitors s - 1"
    by (simp add: ac uniqueVisitors_def map_size_def)
qed

lemma attach_all_Cons:
  "attach_all v (h # hs) s = (case attach v h s of Inl e \<Rightarrow> Inl e | Inr s' \<Rightarrow> attach_all v hs s')"
  by (simp add: attach_all_def split: sum.splits)

lemma attach_counts:
  assumes "attach v h s = Inr s'"
  shows "totalConnections s' = totalConnections s + 1"
    and "uniqueVisitors s' = uniqueVisitors s + (if map_has (activeConnections s) v then 0 else 1)"
    and "map_has (activeConnections s') v"
  using assms
  by (auto simp: attach_returns uniqueVisitors_def map_size_def length_map_set map_has_def
      map_get_map_set)

lemma attach_all_present:
  "map_has (activeConnections s) v \<Longrightarrow>
   \<exists>s'. attach_all v hs s = Inr s' \<and>
        totalConnections s' = totalConnections s + int (length hs) \<and>
        uniqueVisitors s' = uniqueVisitors s"
proof (induction hs arbitrary: s)
  case Nil
  then show ?case by (simp add: attach_all_def)
next
  case (Cons h hs)
  obtain s1 where s1: "attach v h s = Inr s1" by (simp add: attach_returns)
  from attach_counts [OF s1] Cons.prems
  have t: "totalConnections s1 = totalConnections s + 1"
    and u: "uniqueVisitors s1 = uniqueVisitors s"
    and p: "map_has (activeConnections s1) v" by simp_all
  from Cons.IH [OF p] obtain s' where "attach_all v hs s1 = Inr s'"
    and "totalConnections s' = totalConnections s1 + int (length hs)"
    and "uniqueVisitors s' = uniqueVisitors s1" by blast
  with s1 t u show ?case by (simp add: attach_all_Cons)
qed

subsection \<open>The sequences the handlers issue are admissible\<close>







section \<open>Properties of the handlers\<close>

lemma fold_res_write:
  "fold (\<lambda>res s2. res_write gone res frame s2) rs s =
     s\<lparr>wire := wire s @ map (\<lambda>res. \<lparr>target = res, chunk = frame, delivered = (res \<notin> set gone)\<rparr>) rs\<rparr>"
  by (induction rs arbitrary: s) (simp_all add: res_write_def)

lemma fold_fold_res_write:
  "fold (\<lambda>(sessionId, responses) s1. fold (\<lambda>res s2. res_write gone res frame s2) responses s1) m s =
     s\<lparr>wire := wire s @ map (\<lambda>res. \<lparr>target = res, chunk = frame, delivered = (res \<notin> set gone)\<rparr>)
                              (concat (map snd m))\<rparr>"
  by (induction m arbitrary: s) (auto simp: fold_res_write)

lemma broadcastCount_writes:
  "broadcastCount gone now s =
     s\<lparr>wire := wire s @ map (\<lambda>res. \<lparr>target = res, chunk = count_frame now (reg s),
                                     delivered = (res \<notin> set gone)\<rparr>) (all_handles (reg s))\<rparr>"
  by (simp add: broadcastCount_def Let_def fold_fold_res_write all_handles_def)

section \<open>Properties of the frames\<close>

lemma below_ten: "k < 10 \<Longrightarrow> k = 0 \<or> k = 1 \<or> k = 2 \<or> k = 3 \<or> k = 4 \<or> k = 5 \<or> k = 6 \<or> k = 7 \<or> k = 8 \<or> k = (9::nat)"
  by arith

lemma is_digit_digit_char: "is_digit (digit_char d)"
proof -
  have "d mod 10 < length ''0123456789''" by simp
  then have "''0123456789'' ! (d mod 10) \<in> set ''0123456789''" by (rule nth_mem)
  then show ?thesis by (simp only: is_digit_def digit_char_def)
qed

lemma digit_char_mod: "digit_char (n mod 10) = digit_char n"
  by (simp add: digit_char_def)

lemma digit_char_small_zero: "k < 10 \<Longrightarrow> ''0123456789'' ! k = CHR ''0'' \<Longrightarrow> k = 0"
  by (drule below_ten) (elim disjE, simp_all)

lemma digit_char_zero: "digit_char d = CHR ''0'' \<Longrightarrow> d mod 10 = 0"
proof -
  assume "digit_char d = CHR ''0''"
  then have "''0123456789'' ! (d mod 10) = CHR ''0''" by (simp only: digit_char_def)
  moreover have "d mod 10 < 10" by simp
  ultimately show ?thesis by (rule digit_char_small_zero [rotated])
qed

lemma show_nat_digits: "list_all is_digit (show_nat n)"
proof (induction n rule: show_nat.induct)
  case (1 n)
  then show ?case by (subst show_nat.simps) (simp add: is_digit_digit_char)
qed

lemma show_nat_nonempty: "show_nat n \<noteq> []"
  by (subst show_nat.simps) simp

lemma show_nat_hd_zero: "hd (show_nat n) = CHR ''0'' \<Longrightarrow> n = 0"
proof (induction n rule: show_nat.induct)
  case (1 n)
  show ?case
  proof (cases "n < 10")
    case True
    with "1.prems" have "digit_char n = CHR ''0''" by (subst (asm) show_nat.simps) simp
    from digit_char_zero [OF this] True show ?thesis by simp
  next
    case False
    with "1.prems" have "hd (show_nat (n div 10)) = CHR ''0''"
      by (subst (asm) show_nat.simps) (simp add: show_nat_nonempty)
    with "1.IH" False have "n div 10 = 0" by simp
    with False show ?thesis by simp
  qed
qed

lemma show_nat_zero: "show_nat 0 = ''0''"
  by (subst show_nat.simps) (simp add: digit_char_def)

lemma is_digit_not_minus: "is_digit c \<Longrightarrow> c \<noteq> CHR ''-''"
  by (auto simp: is_digit_def)

lemma show_nat_literal:
  "show_nat n \<noteq> [] \<and> list_all is_digit (show_nat n) \<and>
   (hd (show_nat n) = CHR ''0'' \<longrightarrow> length (show_nat n) = 1) \<and> hd (show_nat n) \<noteq> CHR ''-''"
proof -
  from show_nat_digits [of n] show_nat_nonempty [of n] have "is_digit (hd (show_nat n))"
    by (cases "show_nat n") simp_all
  then have m: "hd (show_nat n) \<noteq> CHR ''-''" by (rule is_digit_not_minus)
  have z: "length (show_nat n) = 1" if "hd (show_nat n) = CHR ''0''"
  proof -
    from show_nat_hd_zero [OF that] have "n = 0" .
    then show ?thesis by (simp add: show_nat_zero)
  qed
  from show_nat_nonempty show_nat_digits m z show ?thesis by blast
qed

lemma is_int_literal_show_int: "is_int_literal (show_int i)"
proof (cases "i < 0")
  case True
  with show_nat_literal [of "nat (- i)"] show ?thesis
    by (simp add: is_int_literal_def show_int_def Let_def)
next
  case False
  with show_nat_literal [of "nat i"] show ?thesis
    by (simp add: is_int_literal_def show_int_def Let_def)
qed

lemma pad2: "pad_digits 2 n = [digit_char (n div 10), digit_char n]"
proof -
  have "pad_digits (Suc (Suc 0)) n = [digit_char (n div 10), digit_char n]"
    by (simp add: digit_char_mod)
  then show ?thesis by (simp only: numeral_2_eq_2)
qed

lemma pad3: "pad_digits 3 n = [digit_char (n div 10 div 10), digit_char (n div 10), digit_char n]"
proof -
  have "pad_digits (Suc (Suc (Suc 0))) n =
          [digit_char (n div 10 div 10), digit_char (n div 10), digit_char n]"
    by (simp add: digit_char_mod)
  then show ?thesis by (simp only: numeral_3_eq_3)
qed

lemma pad4:
  "pad_digits 4 n = [digit_char (n div 10 div 10 div 10), digit_char (n div 10 div 10),
                     digit_char (n div 10), digit_char n]"
proof -
  have "(4::nat) = Suc (Suc (Suc (Suc 0)))" by simp
  moreover have "pad_digits (Suc (Suc (Suc (Suc 0)))) n =
          [digit_char (n div 10 div 10 div 10), digit_char (n div 10 div 10),
           digit_char (n div 10), digit_char n]"
    by (simp add: digit_char_mod)
  ultimately show ?thesis by (simp only:)
qed

lemma toISOString_explicit:
  "year d \<le> 9999 \<Longrightarrow>
   toISOString d =
     [digit_char (year d div 10 div 10 div 10), digit_char (year d div 10 div 10),
      digit_char (year d div 10), digit_char (year d), CHR ''-'',
      digit_char (month d div 10), digit_char (month d), CHR ''-'',
      digit_char (day d div 10), digit_char (day d), CHR ''T'',
      digit_char (hours d div 10), digit_char (hours d), CHR '':'',
      digit_char (minutes d div 10), digit_char (minutes d), CHR '':'',
      digit_char (seconds d div 10), digit_char (seconds d), CHR ''.'',
      digit_char (milliseconds d div 10 div 10), digit_char (milliseconds d div 10),
      digit_char (milliseconds d), CHR ''Z'']"
  by (simp add: toISOString_def pad2 pad3 pad4)

lemma toISOString_shape: "year d \<le> 9999 \<Longrightarrow> iso8601_utc (toISOString d)"
  by (simp add: toISOString_explicit iso8601_utc_def is_digit_digit_char)

lemma escape_digit: "is_digit c \<Longrightarrow> escape_char c = [c]"
  by (auto simp: is_digit_def escape_char_def dquote_def backslash_def)

lemma escape_digit_char: "escape_char (digit_char n) = [digit_char n]"
  by (rule escape_digit) (rule is_digit_digit_char)

lemma escape_separators:
  "escape_char CHR ''-'' = ''-''" "escape_char CHR ''T'' = ''T''" "escape_char CHR '':'' = '':''"
  "escape_char CHR ''.'' = ''.''" "escape_char CHR ''Z'' = ''Z''"
  by (simp_all add: escape_char_def dquote_def backslash_def)

lemma quote_timestamp:
  "year d \<le> 9999 \<Longrightarrow> quote_json_string (toISOString d) = dquote # toISOString d @ [dquote]"
  by (simp add: quote_json_string_def toISOString_explicit escape_digit_char escape_separators)

lemma quote_keys:
  "quote_json_string ''totalConnections'' = dquote # ''totalConnections'' @ [dquote]"
  "quote_json_string ''uniqueVisitors'' = dquote # ''uniqueVisitors'' @ [dquote]"
  "quote_json_string ''timestamp'' = dquote # ''timestamp'' @ [dquote]"
  by (simp_all add: quote_json_string_def escape_char_def dquote_def backslash_def)

lemma count_frame_text:
  "year now \<le> 9999 \<Longrightarrow>
   count_frame now s =
     ''data: '' @ ''{'' @
       [dquote] @ ''totalConnections'' @ [dquote] @ '':'' @ show_int (totalConnections s) @ '','' @
       [dquote] @ ''uniqueVisitors'' @ [dquote] @ '':'' @ show_int (uniqueVisitors s) @ '','' @
       [dquote] @ ''timestamp'' @ [dquote] @ '':'' @ [dquote] @ toISOString now @ [dquote] @
     ''}'' @ [LF, LF]"
  by (simp add: count_frame_def JSON_stringify_def broadcast_object_def stringify_member_def
      quote_keys quote_timestamp uniqueVisitors_def)

lemma setInterval_fires_nth:
  "k < (t - t0) div delay \<Longrightarrow> setInterval_fires delay t0 t ! k = t0 + (k + 1) * delay"
  by (simp add: setInterval_fires_def del: upt_Suc)

lemma length_setInterval_fires: "length (setInterval_fires delay t0 t) = (t - t0) div delay"
  by (simp add: setInterval_fires_def del: upt_Suc)

lemma broadcast_chunks:
  "map chunk (drop (length (wire s)) (wire (broadcastCount gone now s))) =
     replicate (length (all_handles (reg s))) (count_frame now (reg s))"
  by (simp add: broadcastCount_writes comp_def map_replicate_const)

lemma heartbeat_writes:
  "res \<in> set (map fst (intervals s)) \<Longrightarrow>
   wire (heartbeat gone res s) =
     wire s @ [\<lparr>target = res, chunk = '': heartbeat'' @ [LF, LF], delivered = (res \<notin> set gone)\<rparr>]"
  by (simp add: heartbeat_def res_write_def heartbeat_frame_def)

lemma events_starts_timer:
  "\<exists>s'. events gone now v res s = Inr s' \<and>
        intervals s' = intervals s @ [(res, 15000)]"
  by (simp add: events_def attach_returns broadcastCount_writes Let_def heartbeatIntervalMs_def)

lemma field_names:
  "sse_field_name heartbeat_frame = []"
  "sse_field_name (count_frame now r) = ''data''"
  by (simp_all add: sse_field_name_def heartbeat_frame_def count_frame_def)

lemma digit_value_small: "k < 10 \<Longrightarrow> digit_value (''0123456789'' ! k) = k"
  by (drule below_ten) (elim disjE, simp_all add: digit_value_def)

lemma digit_value_digit_char: "digit_value (digit_char k) = k mod 10"
proof -
  have "k mod 10 < 10" by simp
  from digit_value_small [OF this] show ?thesis by (simp only: digit_char_def)
qed

lemma read_nat_snoc: "read_nat (s @ [c]) = 10 * read_nat s + digit_value c"
  by (simp add: read_nat_def)

lemma read_nat_show_nat: "read_nat (show_nat n) = n"
proof (induction n rule: show_nat.induct)
  case (1 n)
  show ?case
  proof (cases "n < 10")
    case True
    have "read_nat [digit_char n] = n mod 10"
      using read_nat_snoc [of "[]" "digit_char n"]
      by (simp add: digit_value_digit_char read_nat_def)
    with True show ?thesis by (subst show_nat.simps) simp
  next
    case False
    with "1.IH" have "read_nat (show_nat (n div 10)) = n div 10" by simp
    then have "read_nat (show_nat (n div 10) @ [digit_char (n mod 10)]) = 10 * (n div 10) + n mod 10"
      by (simp add: read_nat_snoc digit_value_digit_char)
    with False show ?thesis by (subst show_nat.simps) simp
  qed
qed

lemma read_int_show_int: "read_int (show_int i) = i"
proof (cases "i < 0")
  case True
  then show ?thesis by (simp add: read_int_def show_int_def read_nat_show_nat)
next
  case False
  from show_nat_literal [of "nat i"] obtain c cs where
    cs: "show_nat (nat i) = c # cs" and c: "c \<noteq> CHR ''-''"
    by (cases "show_nat (nat i)") auto
  from read_nat_show_nat [of "nat i"] cs have "read_nat (c # cs) = nat i" by simp
  with False cs c show ?thesis by (simp add: read_int_def show_int_def)
qed

lemma quote_status:
  "quote_json_string ''status'' = dquote # ''status'' @ [dquote]"
  "quote_json_string ''ok'' = dquote # ''ok'' @ [dquote]"
  by (simp_all add: quote_json_string_def escape_char_def dquote_def backslash_def)

lemma health_text:
  "year now \<le> 9999 \<Longrightarrow>
   health now s =
     ''{'' @
       [dquote] @ ''status'' @ [dquote] @ '':'' @ [dquote] @ ''ok'' @ [dquote] @ '','' @
       [dquote] @ ''totalConnections'' @ [dquote] @ '':'' @ show_int (totalConnections s) @ '','' @
       [dquote] @ ''uniqueVisitors'' @ [dquote] @ '':'' @
         show_int (int (length (activeConnections s))) @ '','' @
       [dquote] @ ''timestamp'' @ [dquote] @ '':'' @ [dquote] @ toISOString now @ [dquote] @
     ''}''"
  by (simp add: health_def JSON_stringify_def health_object_def stringify_member_def
      quote_keys quote_status quote_timestamp map_size_def)

lemmas eval_defs = attach_def detach_def map_has_def set_add_def set_has_def set_delete_def
  set_size_def map_size_def snapshot_def uniqueVisitors_def empty_registry_def handles_of_def
  sum_sizes_def nonempty_entries_def Let_def

section \<open>The claims\<close>

text \<open>
  C4. Starting from the empty registry, the operations Attach(v1,h1), Attach(v1,h2),
  Attach(v2,h3), Detach(v1,h1), Detach(v1,h2), Detach(v2,h3) give the snapshots (1,1),
  (2,1), (3,2), (2,2), (1,1), (0,0) after each step, and v1 is no key of the map after
  Detach(v1,h2). Each conjunct gives the state after a prefix of the scenario and the
  snapshot read in it.
\<close>

theorem scenario_A_snapshots:
  "run (take 1 scenario_A) empty_registry =
     Inr \<lparr>activeConnections = [(''v1'', [1])], totalConnections = 1\<rparr> \<and>
   snapshot \<lparr>activeConnections = [(''v1'', [1])], totalConnections = 1\<rparr> = (1, 1) \<and>
   run (take 2 scenario_A) empty_registry =
     Inr \<lparr>activeConnections = [(''v1'', [1, 2])], totalConnections = 2\<rparr> \<and>
   snapshot \<lparr>activeConnections = [(''v1'', [1, 2])], totalConnections = 2\<rparr> = (2, 1) \<and>
   run (take 3 scenario_A) empty_registry =
     Inr \<lparr>activeConnections = [(''v1'', [1, 2]), (''v2'', [3])], totalConnections = 3\<rparr> \<and>
   snapshot \<lparr>activeConnections = [(''v1'', [1, 2]), (''v2'', [3])], totalConnections = 3\<rparr> = (3, 2) \<and>
   run (take 4 scenario_A) empty_registry =
     Inr \<lparr>activeConnections = [(''v1'', [2]), (''v2'', [3])], totalConnections = 2\<rparr> \<and>
   snapshot \<lparr>activeConnections = [(''v1'', [2]), (''v2'', [3])], totalConnections = 2\<rparr> = (2, 2) \<and>
   run (take 5 scenario_A) empty_registry =
     Inr \<lparr>activeConnections = [(''v2'', [3])], totalConnections = 1\<rparr> \<and>
   snapshot \<lparr>activeConnections = [(''v2'', [3])], totalConnections = 1\<rparr> = (1, 1) \<and>
   \<not> map_has [(''v2'', [3::nat])] ''v1'' \<and>
   run (take 6 scenario_A) empty_registry =
     Inr \<lparr>activeConnections = [], totalConnections = 0\<rparr> \<and>
   snapshot \<lparr>activeConnections = [], totalConnections = 0\<rparr> = (0, 0)"
  by (simp add: scenario_A_def eval_defs)

text \<open>
  C9. For every registry state and every session id without an entry in the map, the
  detach of any handle under that id changes nothing: the state is returned as it was,
  so the counter, the map and its keys are the same.
\<close>

theorem detach_unknown_session_noop:
  "\<not> map_has (activeConnections s) v \<Longrightarrow>
   detach v h s = s \<and>
   totalConnections (detach v h s) = totalConnections s \<and>
   activeConnections (detach v h s) = activeConnections s \<and>
   map fst (activeConnections (detach v h s)) = map fst (activeConnections s)"
  by (simp add: map_has_def detach_absent)

theorem detach_unknown_session_noop_witness:
  "\<not> map_has [(''v1'', [1::nat])] ''v2'' \<and>
   detach ''v2'' 1 \<lparr>activeConnections = [(''v1'', [1])], totalConnections = 1\<rparr>
     = \<lparr>activeConnections = [(''v1'', [1])], totalConnections = 1\<rparr>"
  using detach_unknown_session_noop
    [of "\<lparr>activeConnections = [(''v1'', [1])], totalConnections = 1\<rparr>" "''v2''" 1]
  by (simp add: map_has_def)



text \<open>
  C2, as stated: detaching the same handle twice lowers the counter by one in total, also
  when the visitor still has other handles at the second call. With two handles under
  \<open>v1\<close> the second detach of handle 1 finds the entry of \<open>v1\<close>, deletes nothing and
  decrements again: the counter goes from 2 to 0.
\<close>

theorem double_detach_decrements_twice:
  "set_has (handles_of \<lparr>activeConnections = [(''v1'', [1, 2])], totalConnections = 2\<rparr> ''v1'') 1 \<and>
   detach ''v1'' 1 \<lparr>activeConnections = [(''v1'', [1, 2])], totalConnections = 2\<rparr>
     = \<lparr>activeConnections = [(''v1'', [2])], totalConnections = 1\<rparr> \<and>
   detach ''v1'' 1 \<lparr>activeConnections = [(''v1'', [2])], totalConnections = 1\<rparr>
     = \<lparr>activeConnections = [(''v1'', [2])], totalConnections = 0\<rparr>"
  by (simp add: eval_defs)

text \<open>
  C2, amended. For every registry state in which \<open>h\<close> is the only handle of \<open>v\<close>,
  detaching \<open>(v, h)\<close> twice lowers the counter by exactly one: the first call decrements
  the counter and removes the key \<open>v\<close> from the map, and the second call finds no entry
  and leaves the state as it is.
\<close>

theorem double_detach_of_last_handle:
  "handles_of s v = [h] \<Longrightarrow>
   map_has (activeConnections s) v \<and>
   detach v h s = \<lparr>activeConnections = map_delete (activeConnections s) v,
                    totalConnections = totalConnections s - 1\<rparr> \<and>
   \<not> map_has (activeConnections (detach v h s)) v \<and>
   detach v h (detach v h s) = detach v h s \<and>
   totalConnections (detach v h (detach v h s)) = totalConnections s - 1"
proof -
  assume "handles_of s v = [h]"
  then have got: "map_get (activeConnections s) v = Some [h]"
    by (simp add: handles_of_def split: option.splits)
  from detach_present [OF got, of h]
  have d: "detach v h s = \<lparr>activeConnections = map_delete (activeConnections s) v,
                           totalConnections = totalConnections s - 1\<rparr>" by simp
  then have gone: "map_get (activeConnections (detach v h s)) v = None"
    by (simp add: map_get_map_delete)
  from detach_absent [OF gone] have twice: "detach v h (detach v h s) = detach v h s" .
  from got have "map_has (activeConnections s) v" by (simp add: map_has_def)
  moreover from gone have "\<not> map_has (activeConnections (detach v h s)) v"
    by (simp add: map_has_def)
  moreover from twice d have "totalConnections (detach v h (detach v h s)) = totalConnections s - 1"
    by simp
  ultimately show ?thesis using d twice by blast
qed

theorem double_detach_of_last_handle_witness:
  "handles_of \<lparr>activeConnections = [(''v1'', [1]), (''v2'', [3])], totalConnections = 2\<rparr> ''v1'' = [1] \<and>
   map_has [(''v1'', [1::nat]), (''v2'', [3])] ''v1'' \<and>
   detach ''v1'' 1 \<lparr>activeConnections = [(''v1'', [1]), (''v2'', [3])], totalConnections = 2\<rparr>
     = \<lparr>activeConnections = [(''v2'', [3])], totalConnections = 1\<rparr> \<and>
   \<not> map_has [(''v2'', [3::nat])] ''v1'' \<and>
   detach ''v1'' 1 \<lparr>activeConnections = [(''v2'', [3])], totalConnections = 1\<rparr>
     = \<lparr>activeConnections = [(''v2'', [3])], totalConnections = 1\<rparr>"
  using double_detach_of_last_handle
    [of "\<lparr>activeConnections = [(''v1'', [1]), (''v2'', [3])], totalConnections = 2\<rparr>" "''v1''" 1]
  by (simp add: eval_defs)

text \<open>
  C5. In every state the registry reaches from the empty one, by whatever operations, a
  session id is a key of the map exactly when its handle set is non-empty; and detaching
  the last remaining handle of a session id removes the key, so that the next snapshot
  counts one visitor less.
\<close>

theorem pruning_and_presence:
  "\<exists>s. run ops empty_registry = Inr s \<and>
       (\<forall>v. map_has (activeConnections s) v \<longleftrightarrow> handles_of s v \<noteq> []) \<and>
       (\<forall>v h. handles_of s v = [h] \<longrightarrow>
              \<not> map_has (activeConnections (detach v h s)) v \<and>
              uniqueVisitors (detach v h s) = uniqueVisitors s - 1)"
proof -
  from run_reachable [of ops] obtain s
    where s: "run ops empty_registry = Inr s" and ok: "rep_ok s" and ne: "no_empty_sets s"
    by blast
  from present_iff_nonempty [OF ne] detach_last [OF ok] s show ?thesis by blast
qed

theorem pruning_and_presence_witness:
  "run (take 4 scenario_A) empty_registry =
     Inr \<lparr>activeConnections = [(''v1'', [2]), (''v2'', [3])], totalConnections = 2\<rparr> \<and>
   handles_of \<lparr>activeConnections = [(''v1'', [2]), (''v2'', [3])], totalConnections = 2\<rparr> ''v1'' = [2] \<and>
   map_has [(''v1'', [2::nat]), (''v2'', [3])] ''v1'' \<and>
   detach ''v1'' 2 \<lparr>activeConnections = [(''v1'', [2]), (''v2'', [3])], totalConnections = 2\<rparr>
     = \<lparr>activeConnections = [(''v2'', [3])], totalConnections = 1\<rparr> \<and>
   \<not> map_has [(''v2'', [3::nat])] ''v1'' \<and>
   uniqueVisitors \<lparr>activeConnections = [(''v2'', [3])], totalConnections = 1\<rparr> = 1"
  using pruning_and_presence [of "take 4 scenario_A"]
  by (simp add: scenario_A_def eval_defs)

text \<open>
  C6. For every registry state, attaching \<open>N \<ge> 1\<close> distinct handles under one session
  id raises the counter by exactly \<open>N\<close>, and the number of unique visitors by one when
  the id had no entry before and by nothing when it had.
\<close>

theorem attach_all_counts:
  assumes "hs \<noteq> []" and "distinct hs"
  shows "\<exists>s'. attach_all v hs s = Inr s' \<and>
              totalConnections s' = totalConnections s + int (length hs) \<and>
              uniqueVisitors s' =
                uniqueVisitors s + (if map_has (activeConnections s) v then 0 else 1)"
proof -
  from assms(1) obtain h tl where hs: "hs = h # tl" by (cases hs) auto
  obtain s1 where s1: "attach v h s = Inr s1" by (simp add: attach_returns)
  from attach_all_present [OF attach_counts(3) [OF s1], of tl] obtain s'
    where "attach_all v tl s1 = Inr s'"
      and "totalConnections s' = totalConnections s1 + int (length tl)"
      and "uniqueVisitors s' = uniqueVisitors s1" by blast
  with s1 attach_counts(1,2) [OF s1] hs show ?thesis by (simp add: attach_all_Cons)
qed

theorem attach_all_counts_witness:
  "[2, 3] \<noteq> ([] :: nat list) \<and> distinct [2, 3 :: nat] \<and>
   attach_all ''v1'' [2, 3] \<lparr>activeConnections = [(''v1'', [1])], totalConnections = 1\<rparr>
     = Inr \<lparr>activeConnections = [(''v1'', [1, 2, 3])], totalConnections = 3\<rparr> \<and>
   attach_all ''v2'' [2, 3] \<lparr>activeConnections = [(''v1'', [1])], totalConnections = 1\<rparr>
     = Inr \<lparr>activeConnections = [(''v1'', [1]), (''v2'', [2, 3])], totalConnections = 3\<rparr> \<and>
   uniqueVisitors \<lparr>activeConnections = [(''v1'', [1])], totalConnections = 1\<rparr> = 1 \<and>
   uniqueVisitors \<lparr>activeConnections = [(''v1'', [1, 2, 3])], totalConnections = 3\<rparr> = 1 \<and>
   uniqueVisitors \<lparr>activeConnections = [(''v1'', [1]), (''v2'', [2, 3])], totalConnections = 3\<rparr> = 2"
  using attach_all_counts [of "[2, 3]" "''v1''" "\<lparr>activeConnections = [(''v1'', [1])], totalConnections = 1\<rparr>"]
  by (simp add: attach_all_def eval_defs)

text \<open>
  C10, as stated: a duplicate attach makes the counter strictly exceed the sum of the
  handle-set sizes. After Attach(v1,1), Attach(v1,2) and a detach of a handle 3 that \<open>v1\<close>
  never held, the set of \<open>v1\<close> has two handles and the counter is 1; attaching handle 1
  again gives counter 2 and sum 2, which is not a strict excess.
\<close>

theorem duplicate_attach_can_restore_equality:
  "run [Attach ''v1'' 1, Attach ''v1'' 2, Detach ''v1'' 3] empty_registry =
     Inr \<lparr>activeConnections = [(''v1'', [1, 2])], totalConnections = 1\<rparr> \<and>
   set_has (handles_of \<lparr>activeConnections = [(''v1'', [1, 2])], totalConnections = 1\<rparr> ''v1'') 1 \<and>
   attach ''v1'' 1 \<lparr>activeConnections = [(''v1'', [1, 2])], totalConnections = 1\<rparr>
     = Inr \<lparr>activeConnections = [(''v1'', [1, 2])], totalConnections = 2\<rparr> \<and>
   sum_sizes \<lparr>activeConnections = [(''v1'', [1, 2])], totalConnections = 2\<rparr> = 2 \<and>
   \<not> sum_sizes \<lparr>activeConnections = [(''v1'', [1, 2])], totalConnections = 2\<rparr>
       < totalConnections \<lparr>activeConnections = [(''v1'', [1, 2])], totalConnections = 2\<rparr>"
  by (simp add: eval_defs)

text \<open>
  C10, amended. Every attach returns and raises the counter by exactly one, also when the
  handle is already in the session's set. In that case the map and the handle set are
  left as they were, so the sum of the handle-set sizes stays and the excess of the
  counter over that sum grows by exactly one; from a state in which the counter is not
  below the sum (in particular one in which they are equal) the counter strictly exceeds
  the sum afterwards.
\<close>

theorem attach_always_increments:
  "\<exists>s'. attach v h s = Inr s' \<and>
        totalConnections s' = totalConnections s + 1 \<and>
        (set_has (handles_of s v) h \<longrightarrow>
           activeConnections s' = activeConnections s \<and>
           handles_of s' v = handles_of s v \<and>
           sum_sizes s' = sum_sizes s \<and>
           totalConnections s' - sum_sizes s' = totalConnections s - sum_sizes s + 1 \<and>
           (sum_sizes s \<le> totalConnections s \<longrightarrow> sum_sizes s' < totalConnections s'))"
proof -
  obtain s' where s': "attach v h s = Inr s'" by (simp add: attach_returns)
  have t: "totalConnections s' = totalConnections s + 1" by (rule attach_counts(1) [OF s'])
  have ac: "activeConnections s' = activeConnections s" if dup: "set_has (handles_of s v) h"
  proof -
    from dup obtain hs where got: "map_get (activeConnections s) v = Some hs"
      by (cases "map_get (activeConnections s) v") (simp_all add: handles_of_def set_has_def)
    with dup have "set_add (handles_of s v) h = hs" by (simp add: set_add_def handles_of_def)
    with s' map_set_same [OF got] show ?thesis by (auto simp: attach_returns)
  qed
  then have ho: "handles_of s' v = handles_of s v" if "set_has (handles_of s v) h"
    using that by (simp add: handles_of_def)
  from s' t ac ho sum_sizes_attach [OF s'] show ?thesis by auto
qed

theorem attach_always_increments_witness:
  "set_has (handles_of \<lparr>activeConnections = [(''v1'', [1])], totalConnections = 1\<rparr> ''v1'') 1 \<and>
   sum_sizes \<lparr>activeConnections = [(''v1'', [1])], totalConnections = 1\<rparr> = 1 \<and>
   attach ''v1'' 1 \<lparr>activeConnections = [(''v1'', [1])], totalConnections = 1\<rparr>
     = Inr \<lparr>activeConnections = [(''v1'', [1])], totalConnections = 2\<rparr> \<and>
   sum_sizes \<lparr>activeConnections = [(''v1'', [1])], totalConnections = 2\<rparr> = 1"
  using attach_always_increments [of "''v1''" 1 "\<lparr>activeConnections = [(''v1'', [1])], totalConnections = 1\<rparr>"]
  by (simp add: eval_defs)

text \<open>
  C3, as stated: a failed push or keep-alive send to a handle triggers the detach of that
  handle. With the client of response 1 gone, the broadcast writes to response 1 (not
  delivered) and goes on to response 2 (delivered), and the heartbeat of response 1 is
  not delivered either; after both, response 1 is still in the set of \<open>v1\<close>, where a
  detach would have removed it.
\<close>

theorem failed_send_keeps_handle_attached:
  "map target (wire (broadcastCount [1] example_date example_server)) = [1, 2] \<and>
   map delivered (wire (broadcastCount [1] example_date example_server)) = [False, True] \<and>
   reg (broadcastCount [1] example_date example_server) = reg example_server \<and>
   handles_of (reg (broadcastCount [1] example_date example_server)) ''v1'' = [1] \<and>
   map delivered (wire (heartbeat [1] 1 example_server)) = [False] \<and>
   handles_of (reg (heartbeat [1] 1 example_server)) ''v1'' = [1] \<and>
   handles_of (detach ''v1'' 1 (reg example_server)) ''v1'' = []"
  by (simp add: broadcastCount_def heartbeat_def res_write_def example_server_def eval_defs)

text \<open>
  C3, amended. Whatever clients have gone, a broadcast and a heartbeat leave the registry
  and the timers as they were: no send failure detaches a handle. A broadcast issues
  exactly one write per registered handle, in iteration order, whether or not an earlier
  write of it was delivered: a failed push is not retried and does not end the iteration.
  The detach of a handle, and the clearing of its timer, is what the close handler does.
\<close>

theorem send_failure_changes_nothing:
  "reg (broadcastCount gone now s) = reg s \<and>
   intervals (broadcastCount gone now s) = intervals s \<and>
   wire (broadcastCount gone now s) =
     wire s @ map (\<lambda>res. \<lparr>target = res, chunk = count_frame now (reg s),
                           delivered = (res \<notin> set gone)\<rparr>) (all_handles (reg s)) \<and>
   reg (heartbeat gone res s) = reg s \<and>
   intervals (heartbeat gone res s) = intervals s \<and>
   reg (on_close gone now v res s) = detach v res (reg s) \<and>
   intervals (on_close gone now v res s) = remove1 (res, heartbeatIntervalMs) (intervals s)"
  by (simp add: broadcastCount_writes heartbeat_def res_write_def on_close_def Let_def)

theorem send_failure_changes_nothing_witness:
  "wire (broadcastCount [1] example_date example_server) =
     [\<lparr>target = 1, chunk = count_frame example_date (reg example_server), delivered = False\<rparr>,
      \<lparr>target = 2, chunk = count_frame example_date (reg example_server), delivered = True\<rparr>] \<and>
   reg (broadcastCount [1] example_date example_server) = reg example_server"
  using send_failure_changes_nothing [of "[1]" example_date example_server]
  by (simp add: example_server_def all_handles_def)

text \<open>
  C8. For every registry state and all clock readings up to the year 9999, the status
  endpoint sends one JSON document whose text is the object with the members \<open>status\<close>,
  \<open>totalConnections\<close>, \<open>uniqueVisitors\<close> and \<open>timestamp\<close>; the two numbers printed in it
  are the counter and the number of map keys, the same two numbers the count frame of a
  broadcast prints in that state and a snapshot returns, and reading either printed
  number back gives that count.
\<close>

theorem health_reports_snapshot:
  assumes "year now \<le> 9999" and "year now' \<le> 9999"
  shows
    "health now s =
       ''{'' @
         [dquote] @ ''status'' @ [dquote] @ '':'' @ [dquote] @ ''ok'' @ [dquote] @ '','' @
         [dquote] @ ''totalConnections'' @ [dquote] @ '':'' @ show_int (totalConnections s) @ '','' @
         [dquote] @ ''uniqueVisitors'' @ [dquote] @ '':'' @
           show_int (int (length (activeConnections s))) @ '','' @
         [dquote] @ ''timestamp'' @ [dquote] @ '':'' @ [dquote] @ toISOString now @ [dquote] @
       ''}'' \<and>
     count_frame now' s =
       ''data: '' @ ''{'' @
         [dquote] @ ''totalConnections'' @ [dquote] @ '':'' @ show_int (totalConnections s) @ '','' @
         [dquote] @ ''uniqueVisitors'' @ [dquote] @ '':'' @
           show_int (int (length (activeConnections s))) @ '','' @
         [dquote] @ ''timestamp'' @ [dquote] @ '':'' @ [dquote] @ toISOString now' @ [dquote] @
       ''}'' @ [LF, LF] \<and>
     read_int (show_int (totalConnections s)) = totalConnections s \<and>
     read_int (show_int (int (length (activeConnections s)))) = int (length (activeConnections s)) \<and>
     json_field (health_object now s) ''totalConnections'' = Some (JNumber (totalConnections s)) \<and>
     json_field (health_object now s) ''uniqueVisitors'' =
       Some (JNumber (int (length (activeConnections s)))) \<and>
     json_field (health_object now s) ''timestamp'' = Some (JString (toISOString now)) \<and>
     json_field (broadcast_object now' s) ''totalConnections'' = Some (JNumber (totalConnections s)) \<and>
     json_field (broadcast_object now' s) ''uniqueVisitors'' =
       Some (JNumber (int (length (activeConnections s)))) \<and>
     snapshot s = (totalConnections s, int (length (activeConnections s)))"
proof -
  note a = health_text [OF assms(1), of s]
  have b: "count_frame now' s =
       ''data: '' @ ''{'' @
         [dquote] @ ''totalConnections'' @ [dquote] @ '':'' @ show_int (totalConnections s) @ '','' @
         [dquote] @ ''uniqueVisitors'' @ [dquote] @ '':'' @
           show_int (int (length (activeConnections s))) @ '','' @
         [dquote] @ ''timestamp'' @ [dquote] @ '':'' @ [dquote] @ toISOString now' @ [dquote] @
       ''}'' @ [LF, LF]"
    using count_frame_text [OF assms(2), of s] by (simp add: uniqueVisitors_def map_size_def)
  note c = read_int_show_int [of "totalConnections s"]
  note d = read_int_show_int [of "int (length (activeConnections s))"]
  have e: "json_field (health_object now s) ''totalConnections'' = Some (JNumber (totalConnections s))"
    and f: "json_field (health_object now s) ''uniqueVisitors'' =
       Some (JNumber (int (length (activeConnections s))))"
    and g: "json_field (health_object now s) ''timestamp'' = Some (JString (toISOString now))"
    by (simp_all add: health_object_def map_size_def)
  have h: "json_field (broadcast_object now' s) ''totalConnections'' = Some (JNumber (totalConnections s))"
    and i: "json_field (broadcast_object now' s) ''uniqueVisitors'' =
       Some (JNumber (int (length (activeConnections s))))"
    by (simp_all add: broadcast_object_def map_size_def)
  have j: "snapshot s = (totalConnections s, int (length (activeConnections s)))"
    by (simp add: snapshot_def uniqueVisitors_def map_size_def)
  from a b c d e f g h i j show ?thesis by (intro conjI)
qed

theorem health_reports_snapshot_witness:
  "year example_date \<le> 9999 \<and>
   health example_date \<lparr>activeConnections = [(''v1'', [1, 2]), (''v2'', [3])], totalConnections = 3\<rparr> =
     ''{'' @ [dquote] @ ''status'' @ [dquote] @ '':'' @ [dquote] @ ''ok'' @ [dquote] @ '','' @
       [dquote] @ ''totalConnections'' @ [dquote] @ '':3,'' @
       [dquote] @ ''uniqueVisitors'' @ [dquote] @ '':2,'' @
       [dquote] @ ''timestamp'' @ [dquote] @ '':'' @
       [dquote] @ ''2026-11-03T06:45:00.007Z'' @ [dquote] @ ''}'' \<and>
   count_frame example_date \<lparr>activeConnections = [(''v1'', [1, 2]), (''v2'', [3])], totalConnections = 3\<rparr> =
     ''data: {'' @ [dquote] @ ''totalConnections'' @ [dquote] @ '':3,'' @
       [dquote] @ ''uniqueVisitors'' @ [dquote] @ '':2,'' @
       [dquote] @ ''timestamp'' @ [dquote] @ '':'' @
       [dquote] @ ''2026-11-03T06:45:00.007Z'' @ [dquote] @ ''}'' @ [LF, LF] \<and>
   read_int ''3'' = 3 \<and> read_int ''2'' = 2 \<and>
   snapshot \<lparr>activeConnections = [(''v1'', [1, 2]), (''v2'', [3])], totalConnections = 3\<rparr> = (3, 2)"
proof -
  have y: "year example_date \<le> 9999" by (simp add: example_date_def)
  have t: "toISOString example_date = ''2026-11-03T06:45:00.007Z''"
    by (simp add: toISOString_explicit [OF y]) (simp add: example_date_def digit_char_def)
  have n: "show_int 3 = ''3''" "show_int 2 = ''2''"
    by (simp_all add: show_int_def show_nat.simps digit_char_def)
  from health_reports_snapshot [OF y y,
      of "\<lparr>activeConnections = [(''v1'', [1, 2]), (''v2'', [3])], totalConnections = 3\<rparr>"]
  show ?thesis by (simp add: y t n)
qed

text \<open>
  C7. For every server state and every clock reading up to the year 9999: every chunk a
  broadcast writes is the count frame, whose text is \<open>data: \<close>, then the JSON object
  with the members \<open>totalConnections\<close> and \<open>uniqueVisitors\<close> (integer literals) and
  \<open>timestamp\<close> (a string of the ISO-8601 UTC shape), then two line feeds; its field name
  is \<open>data\<close>. The heartbeat of a live timer writes exactly \<open>: heartbeat\<close> and two line
  feeds to its own response, a comment line without a field name. The \<open>/events\<close> handler
  starts that timer with a delay of 15000 ms, so that on an ideal clock its callback runs
  15000, 30000, ... ms after the attach.
\<close>

theorem frame_formats:
  assumes "year now \<le> 9999"
  shows
    "map chunk (drop (length (wire s)) (wire (broadcastCount gone now s))) =
       replicate (length (all_handles (reg s))) (count_frame now (reg s)) \<and>
     count_frame now (reg s) =
       ''data: '' @ ''{'' @
         [dquote] @ ''totalConnections'' @ [dquote] @ '':'' @
           show_int (totalConnections (reg s)) @ '','' @
         [dquote] @ ''uniqueVisitors'' @ [dquote] @ '':'' @
           show_int (uniqueVisitors (reg s)) @ '','' @
         [dquote] @ ''timestamp'' @ [dquote] @ '':'' @ [dquote] @ toISOString now @ [dquote] @
       ''}'' @ [LF, LF] \<and>
     is_int_literal (show_int (totalConnections (reg s))) \<and>
     is_int_literal (show_int (uniqueVisitors (reg s))) \<and>
     iso8601_utc (toISOString now) \<and>
     sse_field_name (count_frame now (reg s)) = ''data'' \<and>
     (res \<in> set (map fst (intervals s)) \<longrightarrow>
        wire (heartbeat gone res s) =
          wire s @ [\<lparr>target = res, chunk = '': heartbeat'' @ [LF, LF],
                     delivered = (res \<notin> set gone)\<rparr>]) \<and>
     sse_field_name heartbeat_frame = [] \<and>
     (\<exists>s'. events gone now v res s = Inr s' \<and> intervals s' = intervals s @ [(res, 15000)]) \<and>
     length (setInterval_fires 15000 t0 t) = (t - t0) div 15000 \<and>
     (\<forall>k < (t - t0) div 15000. setInterval_fires 15000 t0 t ! k = t0 + (k + 1) * 15000)"
proof -
  note a = broadcast_chunks [of s gone now]
  note b = count_frame_text [OF assms, of "reg s"]
  note c = is_int_literal_show_int [of "totalConnections (reg s)"]
  note d = is_int_literal_show_int [of "uniqueVisitors (reg s)"]
  note e = toISOString_shape [OF assms]
  note f = field_names(2) [of now "reg s"]
  have g: "res \<in> set (map fst (intervals s)) \<longrightarrow>
        wire (heartbeat gone res s) =
          wire s @ [\<lparr>target = res, chunk = '': heartbeat'' @ [LF, LF],
                     delivered = (res \<notin> set gone)\<rparr>]"
    using heartbeat_writes [of res s gone] by blast
  note h = field_names(1)
  note i = events_starts_timer [of gone now v res s]
  note j = length_setInterval_fires [of 15000 t0 t]
  have k: "\<forall>k < (t - t0) div 15000. setInterval_fires 15000 t0 t ! k = t0 + (k + 1) * 15000"
    using setInterval_fires_nth [of _ t t0 15000] by blast
  from a b c d e f g h i j k show ?thesis by (intro conjI)
qed

theorem frame_formats_witness:
  "year example_date \<le> 9999 \<and>
   map chunk (wire (broadcastCount [] example_date example_server)) =
     [count_frame example_date (reg example_server), count_frame example_date (reg example_server)] \<and>
   count_frame example_date (reg example_server) =
     ''data: {'' @ [dquote] @ ''totalConnections'' @ [dquote] @ '':2,'' @
       [dquote] @ ''uniqueVisitors'' @ [dquote] @ '':2,'' @
       [dquote] @ ''timestamp'' @ [dquote] @ '':'' @
       [dquote] @ ''2026-11-03T06:45:00.007Z'' @ [dquote] @ ''}'' @ [LF, LF] \<and>
   1 \<in> set (map fst (intervals example_server)) \<and>
   wire (heartbeat [] 1 example_server) =
     [\<lparr>target = 1, chunk = '': heartbeat'' @ [LF, LF], delivered = True\<rparr>] \<and>
   setInterval_fires 15000 100 45100 = [15100, 30100, 45100]"
proof -
  have y: "year example_date \<le> 9999" by (simp add: example_date_def)
  have t: "toISOString example_date = ''2026-11-03T06:45:00.007Z''"
    by (simp add: toISOString_explicit [OF y]) (simp add: example_date_def digit_char_def)
  have n: "show_int 2 = ''2''"
    by (simp add: show_int_def show_nat.simps digit_char_def)
  have f: "setInterval_fires 15000 100 45100 = [15100, 30100, 45100]"
    by (simp add: setInterval_fires_def upt_rec)
  have i: "1 \<in> set (map fst (intervals example_server))" by (simp add: example_server_def)
  have r: "totalConnections (reg example_server) = 2" "uniqueVisitors (reg example_server) = 2"
    "all_handles (reg example_server) = [1, 2]" "wire example_server = []"
    by (simp_all add: example_server_def uniqueVisitors_def map_size_def all_handles_def)
  from frame_formats [OF y, of example_server "[]" 1 "''v3''" 100 45100] i
  show ?thesis by (simp add: y t n f r numeral_2_eq_2)
qed

end
